theory Spec2Isabelle
  imports Main "HOL-Library.Sublist" "HOL-Library.Log_Nat"
begin

section \<open>Python values\<close>

text \<open>
  The server of \<^verbatim>\<open>WebSocket.py\<close> works on the values that \<^verbatim>\<open>json.loads\<close> produces and
  on the dictionaries it passes to \<^verbatim>\<open>json.dumps\<close>. A dictionary is an association list
  with distinct keys, read with \<open>map_of\<close>. A text is a list of characters; the model covers
  the code points below 256, which is what HOL's \<open>char\<close> holds. A float carries its
  numeric value as a rational number.
\<close>

datatype pyval =
    JNull
  | JBool bool
  | JInt int
  | JFloat rat
  | JNaN
  | JInf bool
  | JStr string
  | JArr "pyval list"
  | JObj "(string \<times> pyval) list"

text \<open>The exceptions that the handler can meet.\<close>

datatype exn =
    JSONDecodeError
  | TimeoutError
  | AttributeError
  | TypeError
  | KeyError
  | ZeroDivisionError
  | ConnectionClosed
  | OtherException string

text \<open>Python's truth value of an object, as \<^verbatim>\<open>not x\<close> tests it.\<close>

fun truthy :: "pyval \<Rightarrow> bool" where
  "truthy JNull = False"
| "truthy (JBool b) = b"
| "truthy (JInt n) = (n \<noteq> 0)"
| "truthy (JFloat x) = (x \<noteq> 0)"
| "truthy JNaN = True"
| "truthy (JInf _) = True"
| "truthy (JStr s) = (s \<noteq> [])"
| "truthy (JArr xs) = (xs \<noteq> [])"
| "truthy (JObj kvs) = (kvs \<noteq> [])"

section \<open>Text operations\<close>

text \<open>
  \<^verbatim>\<open>str.lower()\<close>: among the code points below 256 the upper-case letters are
  \<^verbatim>\<open>A-Z\<close>, \<^verbatim>\<open>0xC0-0xD6\<close> and \<^verbatim>\<open>0xD8-0xDE\<close>, and each is lowered by adding 32.
\<close>

definition lower_char :: "char \<Rightarrow> char" where
  "lower_char c =
     (let n = (of_char c :: nat)
      in if (65 \<le> n \<and> n \<le> 90) \<or> (192 \<le> n \<and> n \<le> 214) \<or> (216 \<le> n \<and> n \<le> 222)
         then char_of (n + 32) else c)"

definition lower :: "string \<Rightarrow> string" where
  "lower s = map lower_char s"

text \<open>\<^verbatim>\<open>str.isspace()\<close> on one character, for the code points below 256.\<close>

definition isspace :: "char \<Rightarrow> bool" where
  "isspace c =
     (let n = (of_char c :: nat)
      in (9 \<le> n \<and> n \<le> 13) \<or> (28 \<le> n \<and> n \<le> 32) \<or> n = 133 \<or> n = 160)"

text \<open>
  \<^verbatim>\<open>str.split()\<close> without a separator: the maximal runs of characters that are not
  white space, in order; no empty word is produced. \<open>cur\<close> is the word being read.
\<close>

fun split_from :: "string \<Rightarrow> string \<Rightarrow> string list" where
  "split_from cur [] = (if cur = [] then [] else [cur])"
| "split_from cur (c # cs) =
     (if isspace c
      then (if cur = [] then split_from [] cs else cur # split_from [] cs)
      else split_from (cur @ [c]) cs)"

definition split :: "string \<Rightarrow> string list" where
  "split s = split_from [] s"

section \<open>Double-precision arithmetic\<close>

text \<open>
  Python's \<^verbatim>\<open>float\<close> is IEEE 754 binary64: every operation returns the exact result
  rounded to the nearest number with a 53-bit significand, ties going to the even
  significand. The value of a float is modelled as the rational number it denotes.
  The exponent range is not modelled. The quotient of the word count by 50 is at least
  \<open>1 / 50\<close> when it is not zero, and it is finite for a response of fewer than
  \<open>50 * 2 ^ 1024\<close> words; every other non-zero quantity that the scorer computes lies
  between \<open>2 powi (-7)\<close> and \<open>2 powi 9\<close>.
\<close>

definition round_half_even :: "rat \<Rightarrow> int" where
  "round_half_even x =
     (let f = \<lfloor>x\<rfloor>; d = x - of_int f
      in if d < 1 / 2 then f
         else if 1 / 2 < d then f + 1
         else if even f then f else f + 1)"

text \<open>\<open>ilog2 x\<close> is the exponent \<open>e\<close> with \<open>2 powi e \<le> x < 2 powi (e + 1)\<close>, for \<open>0 < x\<close>.\<close>

definition ilog2 :: "rat \<Rightarrow> int" where
  "ilog2 x =
     (let d = bitlen (fst (quotient_of x)) - bitlen (snd (quotient_of x))
      in if 2 powi d \<le> x then d else d - 1)"

definition fl :: "rat \<Rightarrow> rat" where
  "fl x =
     (if x = 0 then 0
      else let u = 2 powi (ilog2 \<bar>x\<bar> - 52)
           in of_int (round_half_even (x / u)) * u)"

definition fmul :: "rat \<Rightarrow> rat \<Rightarrow> rat" where
  "fmul x y = fl (x * y)"

definition fadd :: "rat \<Rightarrow> rat \<Rightarrow> rat" where
  "fadd x y = fl (x + y)"

text \<open>\<^verbatim>\<open>a / b\<close> on two integers is the correctly rounded quotient.\<close>

definition int_truediv :: "int \<Rightarrow> int \<Rightarrow> rat" where
  "int_truediv a b = fl (of_int a / of_int b)"

text \<open>The literals \<^verbatim>\<open>0.6\<close> and \<^verbatim>\<open>0.4\<close> denote the doubles nearest to 6/10 and 4/10.\<close>

definition lit_0_6 :: rat where
  "lit_0_6 = fl (6 / 10)"

definition lit_0_4 :: rat where
  "lit_0_4 = fl (4 / 10)"

section \<open>The scorer\<close>

text \<open>The fixed table of \<^verbatim>\<open>_calculate_score\<close>.\<close>

definition keyword_table :: "(string \<times> string list) list" where
  "keyword_table =
     [(''machine_learning'', [''algorithm'', ''training'', ''model'', ''data'']),
      (''neural_networks'', [''neuron'', ''layer'', ''activation'', ''weights'']),
      (''ai_ethics'', [''bias'', ''fairness'', ''transparency'', ''accountability''])]"

text \<open>
  \<^verbatim>\<open>keywords.get(concept, [])\<close>: a list or a dictionary is not hashable and raises
  \<^verbatim>\<open>TypeError\<close>; a value that is not a string equals no key of the table.
\<close>

definition concept_keywords :: "pyval \<Rightarrow> exn + string list" where
  "concept_keywords concept =
     (case concept of
        JStr c \<Rightarrow> (case map_of keyword_table c of Some ks \<Rightarrow> Inr ks | None \<Rightarrow> Inr [])
      | JArr _ \<Rightarrow> Inl TypeError
      | JObj _ \<Rightarrow> Inl TypeError
      | _ \<Rightarrow> Inr [])"

text \<open>
  \<^verbatim>\<open>sum(1 for keyword in concept_keywords if keyword.lower() in response.lower())\<close>.
  The generator evaluates \<^verbatim>\<open>response.lower()\<close> once per keyword, so a response that is
  not a string raises \<^verbatim>\<open>AttributeError\<close> only when there is a keyword.
\<close>

definition keyword_score :: "string list \<Rightarrow> pyval \<Rightarrow> exn + nat" where
  "keyword_score ks response =
     (case response of
        JStr r \<Rightarrow> Inr (length (filter (\<lambda>keyword. sublist (lower keyword) (lower r)) ks))
      | _ \<Rightarrow> (if ks = [] then Inr 0 else Inl AttributeError))"

text \<open>\<^verbatim>\<open>min(len(response.split()) / 50, 1)\<close>.\<close>

definition length_score :: "pyval \<Rightarrow> exn + rat" where
  "length_score response =
     (case response of
        JStr r \<Rightarrow> Inr (min (int_truediv (int (length (split r))) 50) 1)
      | _ \<Rightarrow> Inl AttributeError)"

text \<open>
  \<^verbatim>\<open>total_score = (keyword_score * 0.6 + length_score * 0.4) * 100\<close> and the clamp
  \<^verbatim>\<open>min(max(total_score, 0), 100)\<close>. The result is the numeric value of the score:
  Python's integer \<^verbatim>\<open>100\<close>, which the clamp returns above 100, and the float
  \<^verbatim>\<open>100.0\<close> are the same number here.
\<close>

definition total_of :: "nat \<Rightarrow> rat \<Rightarrow> rat" where
  "total_of k l = fmul (fadd (fmul (of_nat k) lit_0_6) (fmul l lit_0_4)) 100"

definition calculate_score :: "pyval \<Rightarrow> pyval \<Rightarrow> exn + rat" where
  "calculate_score response concept =
     (case concept_keywords concept of
        Inl e \<Rightarrow> Inl e
      | Inr ks \<Rightarrow>
          (case keyword_score ks response of
             Inl e \<Rightarrow> Inl e
           | Inr k \<Rightarrow>
               (case length_score response of
                  Inl e \<Rightarrow> Inl e
                | Inr l \<Rightarrow> Inr (min (max (total_of k l) 0) 100))))"

section \<open>The process environment\<close>

text \<open>
  What the server takes from the Python run time and from its libraries is a parameter of
  the model: one \<open>env\<close> stands for one server process.
  \<^item> \<open>hash_fn\<close> is the built-in \<^verbatim>\<open>hash\<close> on hashable values; on strings it is salted
    per process and fixed for the life of the process;
  \<^item> \<open>str_fn\<close> is the text that an f-string puts for a value that is not a string;
  \<^item> \<open>uuid4 n\<close> is the text of the identifier that the call number \<open>n\<close> of
    \<^verbatim>\<open>uuid.uuid4()\<close> returns;
  \<^item> \<open>json_loads\<close> is \<^verbatim>\<open>json.loads\<close>: a value, or the exception it raises.
\<close>

record env =
  hash_fn :: "pyval \<Rightarrow> int"
  str_fn :: "pyval \<Rightarrow> string"
  uuid4 :: "nat \<Rightarrow> string"
  json_loads :: "string \<Rightarrow> exn + pyval"

text \<open>\<^verbatim>\<open>hash(x)\<close>: lists and dictionaries are not hashable.\<close>

definition hash_py :: "env \<Rightarrow> pyval \<Rightarrow> exn + int" where
  "hash_py e v =
     (case v of
        JArr _ \<Rightarrow> Inl TypeError
      | JObj _ \<Rightarrow> Inl TypeError
      | _ \<Rightarrow> Inr (hash_fn e v))"

text \<open>\<^verbatim>\<open>f"{x}"\<close>: a string is put as it is.\<close>

definition format_py :: "env \<Rightarrow> pyval \<Rightarrow> string" where
  "format_py e v = (case v of JStr s \<Rightarrow> s | _ \<Rightarrow> str_fn e v)"

text \<open>The decimal text of an integer, as an f-string puts it.\<close>

function str_nat :: "nat \<Rightarrow> string" where
  "str_nat n =
     (if n < 10 then [char_of (48 + n)]
      else str_nat (n div 10) @ [char_of (48 + n mod 10)])"
  by pat_completeness auto
termination
  by (relation "measure id") auto

declare str_nat.simps [simp del]

definition str_int :: "int \<Rightarrow> string" where
  "str_int i = (if i < 0 then CHR ''-'' # str_nat (nat (- i)) else str_nat (nat i))"

section \<open>Feedback selection\<close>

definition feedback_templates :: "(string \<times> string list) list" where
  "feedback_templates =
     [(''low'',
        [''Your response shows initial understanding, but could be more comprehensive.'',
         ''Try to include more specific details related to the concept.'']),
      (''medium'',
        [''Good start! Consider diving deeper into the technical aspects.'',
         ''You're on the right track. Expand on key principles.'']),
      (''high'',
        [''Excellent analysis demonstrating deep conceptual understanding!'',
         ''Impressive response that covers multiple important aspects.''])]"

definition category :: "rat \<Rightarrow> string" where
  "category score =
     (if score < 40 then ''low''
      else if score < 75 then ''medium''
      else ''high'')"

text \<open>
  \<^verbatim>\<open>feedback_templates[category][hash(response) % len(feedback_templates[category])]\<close>.
  Python's \<^verbatim>\<open>%\<close> with a positive divisor is the non-negative remainder, as \<open>mod\<close> on
  \<open>int\<close> is.
\<close>

definition generate_feedback :: "env \<Rightarrow> pyval \<Rightarrow> pyval \<Rightarrow> rat \<Rightarrow> exn + string" where
  "generate_feedback e response concept score =
     (case map_of feedback_templates (category score) of
        None \<Rightarrow> Inl KeyError
      | Some templates \<Rightarrow>
          (case hash_py e response of
             Inl x \<Rightarrow> Inl x
           | Inr h \<Rightarrow>
               (if length templates = 0 then Inl ZeroDivisionError
                else Inr (templates ! nat (h mod int (length templates))))))"

section \<open>The analysis pipeline and its cache\<close>

text \<open>
  The state of the server process: the two attributes that \<^verbatim>\<open>__init__\<close> creates, and the
  number of identifiers that \<^verbatim>\<open>uuid.uuid4()\<close> has handed out so far. A connection is
  known by the identity of its websocket object.
\<close>

record state =
  response_cache :: "string \<rightharpoonup> pyval"
  active_connections :: "nat set"
  uuid_calls :: nat

text \<open>\<^verbatim>\<open>cache_key = f"{concept}_{hash(response)}"\<close>.\<close>

definition cache_key :: "env \<Rightarrow> pyval \<Rightarrow> pyval \<Rightarrow> exn + string" where
  "cache_key e response concept =
     (case hash_py e response of
        Inl x \<Rightarrow> Inl x
      | Inr h \<Rightarrow> Inr (format_py e concept @ ''_'' @ str_int h))"

definition analyze_response :: "env \<Rightarrow> pyval \<Rightarrow> pyval \<Rightarrow> state \<Rightarrow> (exn + pyval) \<times> state" where
  "analyze_response e response concept s =
     (case cache_key e response concept of
        Inl x \<Rightarrow> (Inl x, s)
      | Inr key \<Rightarrow>
          (case response_cache s key of
             Some cached \<Rightarrow> (Inr cached, s)
           | None \<Rightarrow>
               (case calculate_score response concept of
                  Inl x \<Rightarrow> (Inl x, s)
                | Inr total_score \<Rightarrow>
                    (case generate_feedback e response concept total_score of
                       Inl x \<Rightarrow> (Inl x, s)
                     | Inr feedback \<Rightarrow>
                         (let result = JObj
                                [(''concept'', concept),
                                 (''total_score'', JFloat total_score),
                                 (''feedback'', JStr feedback),
                                 (''unique_id'', JStr (uuid4 e (uuid_calls s)))]
                          in (Inr result,
                              s\<lparr>response_cache := (response_cache s)(key \<mapsto> result),
                                uuid_calls := Suc (uuid_calls s)\<rparr>))))))"

section \<open>The connection handler\<close>

text \<open>
  One websocket connection, as the handler meets it: the messages that arrive on it, in
  order, and how the stream ends (\<open>None\<close> when the iteration stops, or the exception that
  the iteration raises); whether the call number \<open>n\<close> of \<^verbatim>\<open>send\<close> goes through (it raises
  \<^verbatim>\<open>ConnectionClosed\<close> otherwise); and what the call number \<open>n\<close> of \<^verbatim>\<open>asyncio.wait_for\<close>
  does with the time bound it is given.
\<close>

datatype wait_result =
    InTime
  | Expired bool

record websocket =
  ws_id :: nat
  inbound :: "string list"
  close_error :: "exn option"
  send_ok :: "nat \<Rightarrow> bool"
  wait_outcome :: "rat \<Rightarrow> nat \<Rightarrow> wait_result"

text \<open>
  What the handler has done on its connection: the dictionaries it has sent (each goes
  on the wire as the text \<^verbatim>\<open>json.dumps\<close> gives), and how many times it has called
  \<^verbatim>\<open>send\<close> and \<^verbatim>\<open>wait_for\<close>.
\<close>

record io =
  sent :: "pyval list"
  send_calls :: nat
  wait_calls :: nat

definition send :: "websocket \<Rightarrow> pyval \<Rightarrow> io \<Rightarrow> exn option \<times> io" where
  "send ws payload c =
     (if send_ok ws (send_calls c)
      then (None, c\<lparr>sent := sent c @ [payload], send_calls := Suc (send_calls c)\<rparr>)
      else (Some ConnectionClosed, c\<lparr>send_calls := Suc (send_calls c)\<rparr>))"

text \<open>
  \<^verbatim>\<open>asyncio.wait_for(coro, timeout)\<close>. The coroutine has no suspension point, so it runs
  whole or not at all. \<open>InTime\<close>: its result or exception is passed on. \<open>Expired has_run\<close>:
  \<^verbatim>\<open>TimeoutError\<close> is raised and the result is dropped; \<open>has_run\<close> tells whether the
  coroutine had run, and with it its effect on the cache.
\<close>

definition wait_for ::
  "websocket \<Rightarrow> rat \<Rightarrow> (state \<Rightarrow> (exn + pyval) \<times> state) \<Rightarrow> state \<times> io \<Rightarrow> (exn + pyval) \<times> state \<times> io" where
  "wait_for ws timeout coro st =
     (let s = fst st; c = snd st; c' = c\<lparr>wait_calls := Suc (wait_calls c)\<rparr>
      in case wait_outcome ws timeout (wait_calls c) of
           InTime \<Rightarrow> (fst (coro s), snd (coro s), c')
         | Expired has_run \<Rightarrow> (Inl TimeoutError, if has_run then snd (coro s) else s, c'))"

text \<open>\<^verbatim>\<open>data.get(key, default)\<close>: only a dictionary has the method.\<close>

definition dict_get :: "pyval \<Rightarrow> string \<Rightarrow> pyval \<Rightarrow> exn + pyval" where
  "dict_get data key dflt =
     (case data of
        JObj kvs \<Rightarrow> Inr (case map_of kvs key of Some v \<Rightarrow> v | None \<Rightarrow> dflt)
      | _ \<Rightarrow> Inl AttributeError)"

text \<open>Whether a decoded value is a dictionary, that is, whether the body was a JSON object.\<close>

fun is_dict :: "pyval \<Rightarrow> bool" where
  "is_dict (JObj _) = True"
| "is_dict _ = False"

definition invalid_input_payload :: pyval where
  "invalid_input_payload =
     JObj [(''error'', JStr ''Invalid input''),
           (''details'', JStr ''Response and concept are required'')]"

definition json_error_payload :: pyval where
  "json_error_payload = JObj [(''error'', JStr ''JSON parsing error'')]"

definition timeout_payload :: pyval where
  "timeout_payload =
     JObj [(''error'', JStr ''Analysis timeout''),
           (''details'', JStr ''Response took too long to process'')]"

definition internal_error_payload :: pyval where
  "internal_error_payload = JObj [(''error'', JStr ''Internal server error'')]"

text \<open>
  The body of the inner \<^verbatim>\<open>try\<close>, for one message. \<open>None\<close>: the body ran to its end or
  to \<^verbatim>\<open>continue\<close>; \<open>Some x\<close>: it raised \<open>x\<close>.
\<close>

definition try_body :: "env \<Rightarrow> websocket \<Rightarrow> string \<Rightarrow> state \<times> io \<Rightarrow> exn option \<times> state \<times> io" where
  "try_body e ws message st =
     (case json_loads e message of
        Inl x \<Rightarrow> (Some x, st)
      | Inr data \<Rightarrow>
          (case dict_get data ''response'' (JStr []) of
             Inl x \<Rightarrow> (Some x, st)
           | Inr response \<Rightarrow>
               (case dict_get data ''concept'' (JStr []) of
                  Inl x \<Rightarrow> (Some x, st)
                | Inr concept \<Rightarrow>
                    (if \<not> truthy response \<or> \<not> truthy concept
                     then (fst (send ws invalid_input_payload (snd st)),
                           fst st, snd (send ws invalid_input_payload (snd st)))
                     else
                       (case wait_for ws 10 (analyze_response e response concept) st of
                          (Inl x, st') \<Rightarrow> (Some x, st')
                        | (Inr result, s', c') \<Rightarrow>
                            (fst (send ws result c'), s', snd (send ws result c')))))))"

text \<open>
  One turn of the message loop: the inner \<^verbatim>\<open>try\<close> with its three handlers. An
  exception that a handler's own \<^verbatim>\<open>send\<close> raises is not caught here.
\<close>

definition handle_message :: "env \<Rightarrow> websocket \<Rightarrow> string \<Rightarrow> state \<times> io \<Rightarrow> exn option \<times> state \<times> io" where
  "handle_message e ws message st =
     (case try_body e ws message st of
        (None, st') \<Rightarrow> (None, st')
      | (Some x, s', c') \<Rightarrow>
          (let payload =
                 (case x of
                    JSONDecodeError \<Rightarrow> json_error_payload
                  | TimeoutError \<Rightarrow> timeout_payload
                  | _ \<Rightarrow> internal_error_payload)
           in (fst (send ws payload c'), s', snd (send ws payload c'))))"

text \<open>
  \<^verbatim>\<open>async for message in websocket\<close>: the loop ends when the stream ends, or when a
  turn lets an exception out.
\<close>

fun message_loop :: "env \<Rightarrow> websocket \<Rightarrow> string list \<Rightarrow> state \<times> io \<Rightarrow> exn option \<times> state \<times> io" where
  "message_loop e ws [] st = (close_error ws, st)"
| "message_loop e ws (m # ms) st =
     (case handle_message e ws m st of
        (None, st') \<Rightarrow> message_loop e ws ms st'
      | (Some x, st') \<Rightarrow> (Some x, st'))"

text \<open>
  The server state each time the loop waits for the next message: before every turn, and
  once more when the stream ends. These are the states in which the other tasks of the
  process find the server while this handler is suspended in \<^verbatim>\<open>async for\<close>. A turn that
  lets an exception out ends the loop, so no wait follows it.
\<close>

fun loop_states :: "env \<Rightarrow> websocket \<Rightarrow> string list \<Rightarrow> state \<times> io \<Rightarrow> state list" where
  "loop_states e ws [] st = [fst st]"
| "loop_states e ws (m # ms) st =
     fst st #
     (case handle_message e ws m st of
        (None, st') \<Rightarrow> loop_states e ws ms st'
      | (Some x, st') \<Rightarrow> [])"

text \<open>
  One run of \<^verbatim>\<open>handle_client\<close>: the exception that leaves the handler, if any; the server
  state and the connection's record when the handler has returned; and the server states
  at the waits of its loop.
\<close>

record outcome =
  raised :: "exn option"
  final_state :: state
  final_io :: io
  open_states :: "state list"

text \<open>
  \<^verbatim>\<open>handle_client\<close>: register, run the loop, and deregister in the \<^verbatim>\<open>finally\<close> clause.
  \<^verbatim>\<open>set.remove\<close> raises \<^verbatim>\<open>KeyError\<close> when the element is missing, and an exception
  raised in a \<^verbatim>\<open>finally\<close> clause replaces the one that was on its way out.
\<close>

definition handle_client :: "env \<Rightarrow> websocket \<Rightarrow> state \<Rightarrow> outcome" where
  "handle_client e ws s =
     (let s1 = s\<lparr>active_connections := insert (ws_id ws) (active_connections s)\<rparr>;
          start = (s1, \<lparr>sent = [], send_calls = 0, wait_calls = 0\<rparr>);
          r = message_loop e ws (inbound ws) start;
          s2 = fst (snd r);
          c2 = snd (snd r);
          seen = loop_states e ws (inbound ws) start
      in if ws_id ws \<in> active_connections s2
         then \<lparr>raised = fst r,
               final_state = s2\<lparr>active_connections := active_connections s2 - {ws_id ws}\<rparr>,
               final_io = c2,
               open_states = seen\<rparr>
         else \<lparr>raised = Some KeyError, final_state = s2, final_io = c2, open_states = seen\<rparr>)"

section \<open>Quantities the properties are stated with\<close>

text \<open>
  The keyword count, the word count and the length score of a response that is a text,
  for a concept that is a text: the three quantities that the scorer combines.
\<close>

definition text_keywords :: "string \<Rightarrow> string list" where
  "text_keywords concept = (case map_of keyword_table concept of Some ks \<Rightarrow> ks | None \<Rightarrow> [])"

definition keyword_count :: "string \<Rightarrow> string \<Rightarrow> nat" where
  "keyword_count response concept =
     length (filter (\<lambda>keyword. sublist (lower keyword) (lower response)) (text_keywords concept))"

definition word_count :: "string \<Rightarrow> nat" where
  "word_count response = length (split response)"

definition text_length_score :: "string \<Rightarrow> rat" where
  "text_length_score response = min (int_truediv (int (word_count response)) 50) 1"

text \<open>
  The bucket of a score, as the specification words it: below 40 the low list, from 40
  and below 75 the medium list, from 75 the high list.
\<close>

definition spec_bucket :: "rat \<Rightarrow> string list" where
  "spec_bucket score =
     (if score < 40 then
        [''Your response shows initial understanding, but could be more comprehensive.'',
         ''Try to include more specific details related to the concept.'']
      else if 40 \<le> score \<and> score < 75 then
        [''Good start! Consider diving deeper into the technical aspects.'',
         ''You're on the right track. Expand on key principles.'']
      else
        [''Excellent analysis demonstrating deep conceptual understanding!'',
         ''Impressive response that covers multiple important aspects.''])"

text \<open>
  The dictionary that the pipeline builds for a text response and a text concept when
  the cache has no entry, \<open>n\<close> identifiers having been handed out before.
\<close>

definition text_score :: "string \<Rightarrow> string \<Rightarrow> rat" where
  "text_score response concept =
     min (max (total_of (keyword_count response concept) (text_length_score response)) 0) 100"

definition text_result :: "env \<Rightarrow> string \<Rightarrow> string \<Rightarrow> nat \<Rightarrow> pyval" where
  "text_result e response concept n =
     JObj [(''concept'', JStr concept),
           (''total_score'', JFloat (text_score response concept)),
           (''feedback'',
              JStr (spec_bucket (text_score response concept) ! nat (hash_fn e (JStr response) mod 2))),
           (''unique_id'', JStr (uuid4 e n))]"

text \<open>
  The score of a response of \<open>n\<close> words when no keyword is configured, as the scorer
  computes it: \<^verbatim>\<open>(0 * 0.6 + min(n / 50, 1) * 0.4) * 100\<close> in double precision.
\<close>

definition unknown_score :: "nat \<Rightarrow> rat" where
  "unknown_score n = fmul (fadd (fmul 0 lit_0_6) (fmul (min (int_truediv (int n) 50) 1) lit_0_4)) 100"

section \<open>A sample process and sample connections\<close>

text \<open>
  A concrete environment on which the theorems below are exercised. Its hash of a text
  is the length of the text, its identifiers are numbered, and its decoder knows four
  message bodies; every other body is malformed.
\<close>

definition sample_loads :: "string \<Rightarrow> exn + pyval" where
  \<open>sample_loads message =
     (if message = ''{"response": "ok", "concept": "ai_ethics"}''
      then Inr (JObj [(''response'', JStr ''ok''), (''concept'', JStr ''ai_ethics'')])
      else if message = ''{"response": "", "concept": "ai_ethics"}''
      then Inr (JObj [(''response'', JStr []), (''concept'', JStr ''ai_ethics'')])
      else if message = ''{"response": "bias and fairness"}''
      then Inr (JObj [(''response'', JStr ''bias and fairness'')])
      else if message = ''[1, 2]''
      then Inr (JArr [JInt 1, JInt 2])
      else Inl JSONDecodeError)\<close>

definition sample_env :: env where
  "sample_env =
     \<lparr>hash_fn = (\<lambda>v. case v of JStr s \<Rightarrow> int (length s) | _ \<Rightarrow> 0),
      str_fn = (\<lambda>v. ''?''),
      uuid4 = (\<lambda>n. ''uuid-'' @ str_nat n),
      json_loads = sample_loads\<rparr>"

definition sample_state :: state where
  "sample_state = \<lparr>response_cache = Map.empty, active_connections = {}, uuid_calls = 0\<rparr>"

text \<open>
  A connection on which every \<^verbatim>\<open>send\<close> goes through and that closes normally; the
  waits numbered in \<open>late\<close> expire, the others return in time.
\<close>

definition sample_ws :: "string list \<Rightarrow> nat list \<Rightarrow> websocket" where
  "sample_ws messages late =
     \<lparr>ws_id = 1,
      inbound = messages,
      close_error = None,
      send_ok = (\<lambda>n. True),
      wait_outcome = (\<lambda>timeout n. if n \<in> set late then Expired False else InTime)\<rparr>"

definition sample_io :: io where
  "sample_io = \<lparr>sent = [], send_calls = 0, wait_calls = 0\<rparr>"

text \<open>A connection that breaks: the stream of messages ends with an exception.\<close>

definition broken_ws :: "string list \<Rightarrow> websocket" where
  "broken_ws messages = (sample_ws messages [])\<lparr>close_error := Some ConnectionClosed\<rparr>"

text \<open>A connection that is gone: every \<^verbatim>\<open>send\<close> raises.\<close>

definition dead_ws :: "string list \<Rightarrow> websocket" where
  "dead_ws messages = (sample_ws messages [])\<lparr>send_ok := (\<lambda>n. False)\<rparr>"

text \<open>A server on which the connection number 7 is open already.\<close>

definition busy_state :: state where
  "busy_state = sample_state\<lparr>active_connections := {7}\<rparr>"

text \<open>
  Whether the body of a message fails to decode: \<^verbatim>\<open>json.loads\<close> raises, whatever the
  exception.
\<close>

definition decode_fails :: "env \<Rightarrow> string \<Rightarrow> bool" where
  "decode_fails e message = (case json_loads e message of Inl x \<Rightarrow> True | Inr data \<Rightarrow> False)"

text \<open>
  A body that is not well-formed: 100000 opening brackets and nothing else. On it the
  decoder of CPython does not raise \<^verbatim>\<open>JSONDecodeError\<close>: the nesting exhausts the
  parser's recursion limit first and it raises \<^verbatim>\<open>RecursionError\<close>. The environment
  \<open>nesting_env\<close> is \<open>sample_env\<close> with a decoder that does so.
\<close>

definition nested_body :: string where
  "nested_body = replicate 100000 (CHR ''['')"

definition nesting_loads :: "string \<Rightarrow> exn + pyval" where
  "nesting_loads message =
     (if message = nested_body then Inl (OtherException ''RecursionError'')
      else sample_loads message)"

definition nesting_env :: env where
  "nesting_env = sample_env\<lparr>json_loads := nesting_loads\<rparr>"

section \<open>The pipeline on texts\<close>

lemma hash_py_text [simp]: "hash_py e (JStr r) = Inr (hash_fn e (JStr r))"
  by (simp add: hash_py_def)

lemma cache_key_text:
  "cache_key e (JStr r) (JStr c) = Inr (c @ ''_'' @ str_int (hash_fn e (JStr r)))"
  by (simp add: cache_key_def format_py_def)

lemma calculate_score_text:
  "calculate_score (JStr r) (JStr c) = Inr (text_score r c)"
  by (simp add: calculate_score_def concept_keywords_def keyword_score_def length_score_def
      keyword_count_def text_keywords_def text_length_score_def word_count_def text_score_def
      split: option.split)

lemma map_of_feedback_templates:
  "map_of feedback_templates (category score) = Some (spec_bucket score)"
  by (simp add: feedback_templates_def category_def spec_bucket_def)

lemma length_spec_bucket [simp]: "length (spec_bucket score) = 2"
  by (simp add: spec_bucket_def)

lemma generate_feedback_text:
  "generate_feedback e (JStr r) concept score =
     Inr (spec_bucket score ! nat (hash_fn e (JStr r) mod 2))"
  by (simp add: generate_feedback_def map_of_feedback_templates)

lemma analyze_response_text:
  "analyze_response e (JStr r) (JStr c) s =
     (case response_cache s (c @ ''_'' @ str_int (hash_fn e (JStr r))) of
        Some cached \<Rightarrow> (Inr cached, s)
      | None \<Rightarrow>
          (Inr (text_result e r c (uuid_calls s)),
           s\<lparr>response_cache := (response_cache s)(c @ ''_'' @ str_int (hash_fn e (JStr r)) \<mapsto>
                 text_result e r c (uuid_calls s)),
             uuid_calls := Suc (uuid_calls s)\<rparr>))"
  by (simp add: analyze_response_def cache_key_text calculate_score_text generate_feedback_text
      text_result_def Let_def split: option.split)

section \<open>The score is within bounds\<close>

text \<open>
  C2. For every response text and every concept identifier, known or unknown, the score
  function returns a number, and the number is within [0, 100].
\<close>

theorem score_in_range:
  "\<exists>x. calculate_score (JStr response) (JStr concept) = Inr x \<and> 0 \<le> x \<and> x \<le> 100"
  by (simp add: calculate_score_text text_score_def)

theorem score_in_range_witness:
  "calculate_score (JStr ''The algorithm uses training data to build a model'')
       (JStr ''machine_learning'') = Inr 100
   \<and> (\<exists>x. calculate_score (JStr ''The algorithm uses training data to build a model'')
             (JStr ''machine_learning'') = Inr x \<and> 0 \<le> x \<and> x \<le> 100)"
proof -
  have v: "calculate_score (JStr ''The algorithm uses training data to build a model'')
       (JStr ''machine_learning'') = Inr 100"
    by code_simp
  show ?thesis
    using score_in_range [of "''The algorithm uses training data to build a model''"
        "''machine_learning''"] v
    by simp
qed

section \<open>Feedback selection is by bucket and hash\<close>

text \<open>
  C4. For every response text, concept and score, the feedback function returns a string
  of the bucket that the thresholds give (below 40 low, from 40 and below 75 medium, from
  75 high), at the index that is the hash of the response text modulo the length of the
  bucket's list. The index is within the list, and the string depends on the response
  and the score only: the concept does not occur on the right-hand side.
\<close>

theorem feedback_selection:
  "generate_feedback e (JStr response) concept score =
     Inr (spec_bucket score ! nat (hash_fn e (JStr response) mod int (length (spec_bucket score))))
   \<and> nat (hash_fn e (JStr response) mod int (length (spec_bucket score))) < length (spec_bucket score)"
  by (simp add: generate_feedback_text)

theorem feedback_selection_witness:
  "generate_feedback sample_env (JStr ''ok'') (JStr ''ai_ethics'') (4 / 5) =
     Inr ''Your response shows initial understanding, but could be more comprehensive.''
   \<and> generate_feedback sample_env (JStr ''abc'') (JStr ''ai_ethics'') 40 =
     Inr ''You're on the right track. Expand on key principles.''
   \<and> generate_feedback sample_env (JStr ''abc'') (JStr ''ai_ethics'') 75 =
     Inr ''Impressive response that covers multiple important aspects.''"
  using feedback_selection [of sample_env "''ok''" "JStr ''ai_ethics''" "4 / 5"]
    feedback_selection [of sample_env "''abc''" "JStr ''ai_ethics''" 40]
    feedback_selection [of sample_env "''abc''" "JStr ''ai_ethics''" 75]
  by (simp add: spec_bucket_def sample_env_def)

section \<open>Analysing the same pair twice\<close>

text \<open>
  C1. Calling the pipeline twice with the same response and concept yields the same
  result both times: the same score, the same feedback and the same identifier. The
  second call finds the entry in the cache and leaves the state as it is, so it mints no
  identifier.
\<close>

theorem analyze_idempotent:
  "\<exists>result s1.
     analyze_response e (JStr response) (JStr concept) s = (Inr result, s1)
     \<and> analyze_response e (JStr response) (JStr concept) s1 = (Inr result, s1)"
  by (cases "response_cache s (concept @ ''_'' @ str_int (hash_fn e (JStr response)))")
    (simp_all add: analyze_response_text)

theorem analyze_idempotent_witness:
  "analyze_response sample_env (JStr ''ok'') (JStr ''ai_ethics'') sample_state =
     (Inr (JObj [(''concept'', JStr ''ai_ethics''),
                 (''total_score'', JFloat (3602879701896397 / 4503599627370496)),
                 (''feedback'', JStr ''Your response shows initial understanding, but could be more comprehensive.''),
                 (''unique_id'', JStr ''uuid-0'')]),
      snd (analyze_response sample_env (JStr ''ok'') (JStr ''ai_ethics'') sample_state))
   \<and> analyze_response sample_env (JStr ''ok'') (JStr ''ai_ethics'')
        (snd (analyze_response sample_env (JStr ''ok'') (JStr ''ai_ethics'') sample_state)) =
     (Inr (JObj [(''concept'', JStr ''ai_ethics''),
                 (''total_score'', JFloat (3602879701896397 / 4503599627370496)),
                 (''feedback'', JStr ''Your response shows initial understanding, but could be more comprehensive.''),
                 (''unique_id'', JStr ''uuid-0'')]),
      snd (analyze_response sample_env (JStr ''ok'') (JStr ''ai_ethics'') sample_state))"
proof -
  have v: "fst (analyze_response sample_env (JStr ''ok'') (JStr ''ai_ethics'') sample_state) =
     Inr (JObj [(''concept'', JStr ''ai_ethics''),
                 (''total_score'', JFloat (3602879701896397 / 4503599627370496)),
                 (''feedback'', JStr ''Your response shows initial understanding, but could be more comprehensive.''),
                 (''unique_id'', JStr ''uuid-0'')])"
    by code_simp
  show ?thesis
    using analyze_idempotent [of sample_env "''ok''" "''ai_ethics''" sample_state] v
    by auto
qed

section \<open>One turn of the message loop\<close>

lemma analyze_response_text_ok:
  "\<exists>result s'. analyze_response e (JStr r) (JStr k) s = (Inr result, s')"
  by (simp add: analyze_response_text split: option.split)

lemma valid_request_turn:
  assumes "json_loads e message = Inr data"
    and "dict_get data ''response'' (JStr []) = Inr (JStr r)"
    and "dict_get data ''concept'' (JStr []) = Inr (JStr k)"
    and "r \<noteq> []" and "k \<noteq> []"
    and "wait_outcome ws 10 (wait_calls c) = InTime"
    and "send_ok ws (send_calls c)"
    and "analyze_response e (JStr r) (JStr k) s = (Inr result, s')"
  shows "handle_message e ws message (s, c) =
           (None, s', c\<lparr>sent := sent c @ [result], send_calls := Suc (send_calls c),
                          wait_calls := Suc (wait_calls c)\<rparr>)"
  using assms by (simp add: handle_message_def try_body_def wait_for_def send_def Let_def)

lemma decode_error_turn:
  assumes "json_loads e message = Inl JSONDecodeError"
    and "send_ok ws (send_calls c)"
  shows "handle_message e ws message (s, c) =
           (None, s, c\<lparr>sent := sent c @ [json_error_payload], send_calls := Suc (send_calls c)\<rparr>)"
  using assms by (simp add: handle_message_def try_body_def send_def)

lemma timeout_turn:
  assumes "json_loads e message = Inr data"
    and "dict_get data ''response'' (JStr []) = Inr response"
    and "dict_get data ''concept'' (JStr []) = Inr concept"
    and "truthy response" and "truthy concept"
    and "wait_outcome ws 10 (wait_calls c) = Expired has_run"
    and "send_ok ws (send_calls c)"
  shows "handle_message e ws message (s, c) =
           (None, if has_run then snd (analyze_response e response concept s) else s,
            c\<lparr>sent := sent c @ [timeout_payload], send_calls := Suc (send_calls c),
              wait_calls := Suc (wait_calls c)\<rparr>)"
  using assms by (simp add: handle_message_def try_body_def wait_for_def send_def Let_def)

section \<open>Empty fields\<close>

text \<open>
  C5. For every request that decodes to an object whose response field or concept field
  is empty (missing, the empty text, or any other value that Python counts as false), the
  handler sends exactly the payload \<^verbatim>\<open>{"error": "Invalid input", "details": "Response and
  concept are required"}\<close>, provided the send goes through. The pipeline is not invoked:
  the server state is unchanged and the count of waits is unchanged, and the pipeline is
  only ever run inside a wait. The turn ends without an exception, so the loop goes on to
  the next message.
\<close>

theorem empty_field_invalid_input:
  assumes "json_loads e message = Inr data"
    and "dict_get data ''response'' (JStr []) = Inr response"
    and "dict_get data ''concept'' (JStr []) = Inr concept"
    and "\<not> truthy response \<or> \<not> truthy concept"
    and "send_ok ws (send_calls c)"
  shows "handle_message e ws message (s, c) =
           (None, s, c\<lparr>sent := sent c @ [invalid_input_payload], send_calls := Suc (send_calls c)\<rparr>)
     \<and> message_loop e ws (message # rest) (s, c) =
           message_loop e ws rest
             (s, c\<lparr>sent := sent c @ [invalid_input_payload], send_calls := Suc (send_calls c)\<rparr>)"
proof -
  have "handle_message e ws message (s, c) =
     (None, s, c\<lparr>sent := sent c @ [invalid_input_payload], send_calls := Suc (send_calls c)\<rparr>)"
    using assms by (auto simp: handle_message_def try_body_def send_def)
  then show ?thesis by simp
qed

theorem empty_field_invalid_input_witness:
  \<open>handle_message sample_env (sample_ws [] []) ''{"response": "", "concept": "ai_ethics"}''
       (sample_state, sample_io) =
     (None, sample_state,
      sample_io\<lparr>sent := sent sample_io @ [invalid_input_payload],
                send_calls := Suc (send_calls sample_io)\<rparr>)
   \<and> message_loop sample_env (sample_ws [] []) [''{"response": "", "concept": "ai_ethics"}'']
       (sample_state, sample_io) =
     message_loop sample_env (sample_ws [] []) []
       (sample_state,
        sample_io\<lparr>sent := sent sample_io @ [invalid_input_payload],
                  send_calls := Suc (send_calls sample_io)\<rparr>)\<close>
  by (rule empty_field_invalid_input
        [where data = "JObj [(''response'', JStr []), (''concept'', JStr ''ai_ethics'')]"
           and response = "JStr []" and concept = "JStr ''ai_ethics''"])
     (simp_all add: sample_env_def sample_loads_def sample_ws_def dict_get_def)

section \<open>Malformed bodies\<close>

text \<open>
  C6, as the claim states it, fails. Not every body that fails to decode raises
  \<^verbatim>\<open>JSONDecodeError\<close>, and only that exception has the handler that sends the
  parsing-error payload. The body of 100000 opening brackets fails to decode with
  \<^verbatim>\<open>RecursionError\<close>, which the generic handler answers: the payload sent is
  \<^verbatim>\<open>{"error": "Internal server error"}\<close>.
\<close>

theorem malformed_body_json_error_counterexample:
  "decode_fails nesting_env nested_body
   \<and> fst (handle_message nesting_env (sample_ws [] []) nested_body (sample_state, sample_io)) = None
   \<and> sent (snd (snd (handle_message nesting_env (sample_ws [] []) nested_body
                        (sample_state, sample_io)))) = [internal_error_payload]
   \<and> [internal_error_payload] \<noteq> [json_error_payload]"
  by (simp add: decode_fails_def nesting_env_def nesting_loads_def handle_message_def
      try_body_def send_def sample_ws_def sample_io_def internal_error_payload_def
      json_error_payload_def)

text \<open>
  C6, amended. For every message on whose body the decoder raises \<^verbatim>\<open>JSONDecodeError\<close>,
  the handler sends exactly \<^verbatim>\<open>{"error": "JSON parsing error"}\<close>, provided the send goes
  through, and the turn ends without an exception: the connection is not closed. A valid
  request that follows on the same connection is processed normally: the pipeline runs
  on it in the unchanged server state and its result is the next payload sent.
\<close>

theorem malformed_body_json_error:
  assumes "json_loads e m1 = Inl JSONDecodeError"
    and "send_ok ws (send_calls c)"
    and "json_loads e m2 = Inr data"
    and "dict_get data ''response'' (JStr []) = Inr (JStr r)"
    and "dict_get data ''concept'' (JStr []) = Inr (JStr k)"
    and "r \<noteq> []" and "k \<noteq> []"
    and "wait_outcome ws 10 (wait_calls c) = InTime"
    and "send_ok ws (Suc (send_calls c))"
  shows "handle_message e ws m1 (s, c) =
           (None, s, c\<lparr>sent := sent c @ [json_error_payload], send_calls := Suc (send_calls c)\<rparr>)
     \<and> (\<exists>result s'.
           analyze_response e (JStr r) (JStr k) s = (Inr result, s')
           \<and> message_loop e ws (m1 # m2 # rest) (s, c) =
               message_loop e ws rest
                 (s', c\<lparr>sent := sent c @ [json_error_payload, result],
                         send_calls := Suc (Suc (send_calls c)),
                         wait_calls := Suc (wait_calls c)\<rparr>))"
proof -
  let ?c1 = "c\<lparr>sent := sent c @ [json_error_payload], send_calls := Suc (send_calls c)\<rparr>"
  have t1: "handle_message e ws m1 (s, c) = (None, s, ?c1)"
    using assms(1,2) by (rule decode_error_turn)
  obtain result s' where a: "analyze_response e (JStr r) (JStr k) s = (Inr result, s')"
    using analyze_response_text_ok by blast
  have t2: "handle_message e ws m2 (s, ?c1) =
      (None, s', ?c1\<lparr>sent := sent ?c1 @ [result], send_calls := Suc (send_calls ?c1),
                      wait_calls := Suc (wait_calls ?c1)\<rparr>)"
    using assms(3-9) a by (intro valid_request_turn) simp_all
  show ?thesis
    using t1 t2 a by simp
qed

theorem malformed_body_json_error_witness:
  \<open>handle_message sample_env (sample_ws [] []) ''{"response": '' (sample_state, sample_io) =
     (None, sample_state,
      sample_io\<lparr>sent := sent sample_io @ [json_error_payload],
                send_calls := Suc (send_calls sample_io)\<rparr>)
   \<and> (\<exists>result s'.
         analyze_response sample_env (JStr ''ok'') (JStr ''ai_ethics'') sample_state = (Inr result, s')
         \<and> message_loop sample_env (sample_ws [] [])
              [''{"response": '', ''{"response": "ok", "concept": "ai_ethics"}'']
              (sample_state, sample_io) =
            message_loop sample_env (sample_ws [] []) []
              (s', sample_io\<lparr>sent := sent sample_io @ [json_error_payload, result],
                             send_calls := Suc (Suc (send_calls sample_io)),
                             wait_calls := Suc (wait_calls sample_io)\<rparr>))\<close>
  by (rule malformed_body_json_error
        [where data = "JObj [(''response'', JStr ''ok''), (''concept'', JStr ''ai_ethics'')]"])
     (simp_all add: sample_env_def sample_loads_def sample_ws_def dict_get_def)

section \<open>Expiry of the bounded wait\<close>

text \<open>
  C7. The analysis of each request runs inside a wait bounded by 10 time units. When the
  wait expires, the handler sends exactly \<^verbatim>\<open>{"error": "Analysis timeout", "details":
  "Response took too long to process"}\<close>, provided the send goes through, and the turn
  ends without an exception: the connection stays open. A valid request that follows on
  the same connection, whose own wait returns in time, succeeds: the pipeline's result
  for it is the next payload sent.
\<close>

theorem analysis_timeout:
  assumes "json_loads e m1 = Inr data1"
    and "dict_get data1 ''response'' (JStr []) = Inr response"
    and "dict_get data1 ''concept'' (JStr []) = Inr concept"
    and "truthy response" and "truthy concept"
    and "wait_outcome ws 10 (wait_calls c) = Expired has_run"
    and "send_ok ws (send_calls c)"
    and "json_loads e m2 = Inr data2"
    and "dict_get data2 ''response'' (JStr []) = Inr (JStr r)"
    and "dict_get data2 ''concept'' (JStr []) = Inr (JStr k)"
    and "r \<noteq> []" and "k \<noteq> []"
    and "wait_outcome ws 10 (Suc (wait_calls c)) = InTime"
    and "send_ok ws (Suc (send_calls c))"
  shows "\<exists>s1. handle_message e ws m1 (s, c) =
           (None, s1, c\<lparr>sent := sent c @ [timeout_payload], send_calls := Suc (send_calls c),
                          wait_calls := Suc (wait_calls c)\<rparr>)
     \<and> (\<exists>result s2.
           analyze_response e (JStr r) (JStr k) s1 = (Inr result, s2)
           \<and> message_loop e ws (m1 # m2 # rest) (s, c) =
               message_loop e ws rest
                 (s2, c\<lparr>sent := sent c @ [timeout_payload, result],
                         send_calls := Suc (Suc (send_calls c)),
                         wait_calls := Suc (Suc (wait_calls c))\<rparr>))"
proof -
  let ?s1 = "if has_run then snd (analyze_response e response concept s) else s"
  let ?c1 = "c\<lparr>sent := sent c @ [timeout_payload], send_calls := Suc (send_calls c),
              wait_calls := Suc (wait_calls c)\<rparr>"
  have t1: "handle_message e ws m1 (s, c) = (None, ?s1, ?c1)"
    using assms(1-7) by (rule timeout_turn)
  obtain result s2 where a: "analyze_response e (JStr r) (JStr k) ?s1 = (Inr result, s2)"
    using analyze_response_text_ok by blast
  have t2: "handle_message e ws m2 (?s1, ?c1) =
      (None, s2, ?c1\<lparr>sent := sent ?c1 @ [result], send_calls := Suc (send_calls ?c1),
                      wait_calls := Suc (wait_calls ?c1)\<rparr>)"
    using assms(8-14) a by (intro valid_request_turn) simp_all
  have "message_loop e ws (m1 # m2 # rest) (s, c) =
               message_loop e ws rest
                 (s2, c\<lparr>sent := sent c @ [timeout_payload, result],
                         send_calls := Suc (Suc (send_calls c)),
                         wait_calls := Suc (Suc (wait_calls c))\<rparr>)"
    using t1 t2 by simp
  with t1 a show ?thesis by blast
qed

theorem analysis_timeout_witness:
  \<open>\<exists>s1. handle_message sample_env (sample_ws [] [0]) ''{"response": "ok", "concept": "ai_ethics"}''
            (sample_state, sample_io) =
          (None, s1, sample_io\<lparr>sent := sent sample_io @ [timeout_payload],
                                send_calls := Suc (send_calls sample_io),
                                wait_calls := Suc (wait_calls sample_io)\<rparr>)
     \<and> (\<exists>result s2.
           analyze_response sample_env (JStr ''ok'') (JStr ''ai_ethics'') s1 = (Inr result, s2)
           \<and> message_loop sample_env (sample_ws [] [0])
                [''{"response": "ok", "concept": "ai_ethics"}'',
                 ''{"response": "ok", "concept": "ai_ethics"}'']
                (sample_state, sample_io) =
              message_loop sample_env (sample_ws [] [0]) []
                (s2, sample_io\<lparr>sent := sent sample_io @ [timeout_payload, result],
                               send_calls := Suc (Suc (send_calls sample_io)),
                               wait_calls := Suc (Suc (wait_calls sample_io))\<rparr>))\<close>
  by (rule analysis_timeout
        [where ?data1.0 = "JObj [(''response'', JStr ''ok''), (''concept'', JStr ''ai_ethics'')]"
           and ?data2.0 = "JObj [(''response'', JStr ''ok''), (''concept'', JStr ''ai_ethics'')]"
           and response = "JStr ''ok''" and concept = "JStr ''ai_ethics''"
           and has_run = False])
     (simp_all add: sample_env_def sample_loads_def sample_ws_def sample_io_def dict_get_def)

section \<open>Bodies that are not objects\<close>

text \<open>
  C10. For every message whose body is well-formed JSON but not an object (a number, a
  string, an array, a truth value or null), the handler sends exactly
  \<^verbatim>\<open>{"error": "Internal server error"}\<close>, which is not the payload of a parsing error,
  provided the send goes through; the turn ends without an exception, so the connection
  stays open for the requests that follow.
\<close>

theorem non_object_internal_error:
  assumes "json_loads e message = Inr data"
    and "\<not> is_dict data"
    and "send_ok ws (send_calls c)"
  shows "handle_message e ws message (s, c) =
           (None, s, c\<lparr>sent := sent c @ [internal_error_payload], send_calls := Suc (send_calls c)\<rparr>)
     \<and> internal_error_payload \<noteq> json_error_payload
     \<and> message_loop e ws (message # rest) (s, c) =
           message_loop e ws rest
             (s, c\<lparr>sent := sent c @ [internal_error_payload], send_calls := Suc (send_calls c)\<rparr>)"
proof -
  have d: "dict_get data ''response'' (JStr []) = Inl AttributeError"
    using assms(2) by (cases data) (simp_all add: dict_get_def)
  have "handle_message e ws message (s, c) =
     (None, s, c\<lparr>sent := sent c @ [internal_error_payload], send_calls := Suc (send_calls c)\<rparr>)"
    using assms(1,3) d by (simp add: handle_message_def try_body_def send_def)
  then show ?thesis by (simp add: internal_error_payload_def json_error_payload_def)
qed

theorem non_object_internal_error_witness:
  \<open>handle_message sample_env (sample_ws [] []) ''[1, 2]'' (sample_state, sample_io) =
     (None, sample_state,
      sample_io\<lparr>sent := sent sample_io @ [internal_error_payload],
                send_calls := Suc (send_calls sample_io)\<rparr>)
   \<and> internal_error_payload \<noteq> json_error_payload
   \<and> message_loop sample_env (sample_ws [] []) [''[1, 2]''] (sample_state, sample_io) =
     message_loop sample_env (sample_ws [] []) []
       (sample_state,
        sample_io\<lparr>sent := sent sample_io @ [internal_error_payload],
                  send_calls := Suc (send_calls sample_io)\<rparr>)\<close>
  by (rule non_object_internal_error [where data = "JArr [JInt 1, JInt 2]"])
     (simp_all add: sample_env_def sample_loads_def sample_ws_def)

section \<open>Registration of the connection\<close>

lemma analyze_response_connections:
  "active_connections (snd (analyze_response e response concept s)) = active_connections s"
  by (simp add: analyze_response_def Let_def split: sum.split option.split)

lemma wait_for_connections:
  "active_connections (fst (snd (wait_for ws t (analyze_response e response concept) st))) =
     active_connections (fst st)"
  by (simp add: wait_for_def Let_def analyze_response_connections split: wait_result.split)

lemma try_body_connections:
  "active_connections (fst (snd (try_body e ws message st))) = active_connections (fst st)"
proof (cases "json_loads e message")
  case (Inl x)
  then show ?thesis by (simp add: try_body_def)
next
  case data: (Inr data)
  show ?thesis
  proof (cases "dict_get data ''response'' (JStr [])")
    case (Inl x)
    then show ?thesis using data by (simp add: try_body_def)
  next
    case response: (Inr response)
    show ?thesis
    proof (cases "dict_get data ''concept'' (JStr [])")
      case (Inl x)
      then show ?thesis using data response by (simp add: try_body_def)
    next
      case concept: (Inr concept)
      show ?thesis
      proof (cases "\<not> truthy response \<or> \<not> truthy concept")
        case True
        then show ?thesis using data response concept by (simp add: try_body_def)
      next
        case False
        obtain r s' c' where w: "wait_for ws 10 (analyze_response e response concept) st = (r, s', c')"
          by (cases "wait_for ws 10 (analyze_response e response concept) st")
        have "active_connections s' = active_connections (fst st)"
          using wait_for_connections [of ws 10 e response concept st] w by simp
        then show ?thesis using data response concept False w
          by (cases r) (simp_all add: try_body_def)
      qed
    qed
  qed
qed

lemma handle_message_connections:
  "active_connections (fst (snd (handle_message e ws message st))) = active_connections (fst st)"
proof -
  obtain r s' c' where t: "try_body e ws message st = (r, s', c')"
    by (cases "try_body e ws message st")
  have "active_connections s' = active_connections (fst st)"
    using try_body_connections [of e ws message st] t by simp
  then show ?thesis using t
    by (cases r) (simp_all add: handle_message_def Let_def)
qed

lemma message_loop_connections:
  "active_connections (fst (snd (message_loop e ws ms st))) = active_connections (fst st)"
proof (induction ms arbitrary: st)
  case Nil
  then show ?case by simp
next
  case (Cons m ms)
  obtain r st' where h: "handle_message e ws m st = (r, st')"
    by (cases "handle_message e ws m st")
  have "active_connections (fst st') = active_connections (fst st)"
    using handle_message_connections [of e ws m st] h by simp
  then show ?case using h Cons.IH [of st']
    by (cases r) simp_all
qed

lemma loop_states_connections:
  "t \<in> set (loop_states e ws ms st) \<Longrightarrow> active_connections t = active_connections (fst st)"
proof (induction ms arbitrary: st)
  case Nil
  then show ?case by simp
next
  case (Cons m ms)
  obtain r st' where h: "handle_message e ws m st = (r, st')"
    by (cases "handle_message e ws m st")
  have same: "active_connections (fst st') = active_connections (fst st)"
    using handle_message_connections [of e ws m st] h by simp
  show ?case
  proof (cases r)
    case None
    then have "t = fst st \<or> t \<in> set (loop_states e ws ms st')"
      using Cons.prems h by simp
    then show ?thesis using Cons.IH [of st'] same by auto
  next
    case (Some x)
    then have "t = fst st" using Cons.prems h by simp
    then show ?thesis by simp
  qed
qed

lemma loop_states_first: "hd (loop_states e ws ms st) = fst st" "loop_states e ws ms st \<noteq> []"
  by (cases ms; simp)+

text \<open>
  C9. The handler adds its connection to the set of active connections on entry: the
  loop waits for a message at least once, the first wait finds the server in the state
  the handler was called in with the connection added, and at every wait of the loop the
  connection is a member of the set. The \<^verbatim>\<open>finally\<close> clause removes it on every exit of
  the loop: the handler passes on what the loop returned, no exception or the exception
  that left it, and in the state it leaves behind the connection is no longer a member;
  the set is the one the handler found, less its own connection.
\<close>

theorem connection_lifecycle:
  "open_states (handle_client e ws s) \<noteq> []
   \<and> hd (open_states (handle_client e ws s)) =
        s\<lparr>active_connections := insert (ws_id ws) (active_connections s)\<rparr>
   \<and> (\<forall>t \<in> set (open_states (handle_client e ws s)). ws_id ws \<in> active_connections t)
   \<and> raised (handle_client e ws s) =
        fst (message_loop e ws (inbound ws)
               (s\<lparr>active_connections := insert (ws_id ws) (active_connections s)\<rparr>,
                \<lparr>sent = [], send_calls = 0, wait_calls = 0\<rparr>))
   \<and> ws_id ws \<notin> active_connections (final_state (handle_client e ws s))
   \<and> active_connections (final_state (handle_client e ws s)) = active_connections s - {ws_id ws}"
proof -
  let ?start = "(s\<lparr>active_connections := insert (ws_id ws) (active_connections s)\<rparr>,
                \<lparr>sent = [], send_calls = 0, wait_calls = 0\<rparr>)"
  have m: "active_connections (fst (snd (message_loop e ws (inbound ws) ?start))) =
             insert (ws_id ws) (active_connections s)"
    using message_loop_connections [of e ws "inbound ws" ?start] by simp
  have o: "open_states (handle_client e ws s) = loop_states e ws (inbound ws) ?start"
    using m by (simp add: handle_client_def Let_def)
  have a: "\<forall>t \<in> set (loop_states e ws (inbound ws) ?start). ws_id ws \<in> active_connections t"
    using loop_states_connections [of _ e ws "inbound ws" ?start] by simp
  show ?thesis
    using m a by (simp add: o loop_states_first) (simp add: handle_client_def Let_def)
qed

theorem connection_lifecycle_witness:
  \<open>map active_connections
       (open_states (handle_client sample_env (sample_ws [''{"response": '', ''[1, 2]''] []) busy_state))
     = [{1, 7}, {1, 7}, {1, 7}]
   \<and> raised (handle_client sample_env (sample_ws [''{"response": '', ''[1, 2]''] []) busy_state) = None
   \<and> active_connections
        (final_state (handle_client sample_env (sample_ws [''{"response": '', ''[1, 2]''] []) busy_state))
     = {7}
   \<and> map active_connections (open_states (handle_client sample_env (broken_ws [''[1, 2]'']) busy_state))
     = [{1, 7}, {1, 7}]
   \<and> raised (handle_client sample_env (broken_ws [''[1, 2]'']) busy_state) = Some ConnectionClosed
   \<and> active_connections (final_state (handle_client sample_env (broken_ws [''[1, 2]'']) busy_state))
     = {7}
   \<and> map active_connections (open_states (handle_client sample_env (dead_ws [''[1, 2]'']) busy_state))
     = [{1, 7}]
   \<and> raised (handle_client sample_env (dead_ws [''[1, 2]'']) busy_state) = Some ConnectionClosed
   \<and> active_connections (final_state (handle_client sample_env (dead_ws [''[1, 2]'']) busy_state))
     = {7}\<close>
proof -
  have n: \<open>map active_connections
       (open_states (handle_client sample_env (sample_ws [''{"response": '', ''[1, 2]''] []) busy_state))
     = [{1, 7}, {1, 7}, {1, 7}]
   \<and> fst (message_loop sample_env (sample_ws [''{"response": '', ''[1, 2]''] [])
              (inbound (sample_ws [''{"response": '', ''[1, 2]''] []))
              (busy_state\<lparr>active_connections :=
                 insert (ws_id (sample_ws [''{"response": '', ''[1, 2]''] []))
                   (active_connections busy_state)\<rparr>,
               \<lparr>sent = [], send_calls = 0, wait_calls = 0\<rparr>)) = None\<close>
    by (simp add: handle_client_def Let_def busy_state_def sample_state_def sample_ws_def
        sample_env_def sample_loads_def handle_message_def try_body_def dict_get_def send_def)
  have x: \<open>map active_connections (open_states (handle_client sample_env (broken_ws [''[1, 2]'']) busy_state))
     = [{1, 7}, {1, 7}]
   \<and> fst (message_loop sample_env (broken_ws [''[1, 2]''])
              (inbound (broken_ws [''[1, 2]'']))
              (busy_state\<lparr>active_connections :=
                 insert (ws_id (broken_ws [''[1, 2]''])) (active_connections busy_state)\<rparr>,
               \<lparr>sent = [], send_calls = 0, wait_calls = 0\<rparr>)) = Some ConnectionClosed\<close>
    by (simp add: handle_client_def Let_def busy_state_def sample_state_def broken_ws_def
        sample_ws_def sample_env_def sample_loads_def handle_message_def try_body_def dict_get_def
        send_def)
  have d: \<open>map active_connections (open_states (handle_client sample_env (dead_ws [''[1, 2]'']) busy_state))
     = [{1, 7}]
   \<and> fst (message_loop sample_env (dead_ws [''[1, 2]''])
              (inbound (dead_ws [''[1, 2]'']))
              (busy_state\<lparr>active_connections :=
                 insert (ws_id (dead_ws [''[1, 2]''])) (active_connections busy_state)\<rparr>,
               \<lparr>sent = [], send_calls = 0, wait_calls = 0\<rparr>)) = Some ConnectionClosed\<close>
    by (simp add: handle_client_def Let_def busy_state_def sample_state_def dead_ws_def
        sample_ws_def sample_env_def sample_loads_def handle_message_def try_body_def dict_get_def
        send_def)
  have i: \<open>ws_id (sample_ws [''{"response": '', ''[1, 2]''] []) = 1\<close>
    \<open>ws_id (broken_ws [''[1, 2]'']) = 1\<close> \<open>ws_id (dead_ws [''[1, 2]'']) = 1\<close>
    \<open>active_connections busy_state = {7}\<close>
    by (simp_all add: sample_ws_def broken_ws_def dead_ws_def busy_state_def)
  show ?thesis
    using connection_lifecycle
            [of sample_env \<open>sample_ws [''{"response": '', ''[1, 2]''] []\<close> busy_state]
          connection_lifecycle [of sample_env \<open>broken_ws [''[1, 2]'']\<close> busy_state]
          connection_lifecycle [of sample_env \<open>dead_ws [''[1, 2]'']\<close> busy_state]
          n x d
    by (simp add: i)
qed

section \<open>Rounding to double precision\<close>

lemma powi_bitlen_bounds:
  fixes p :: int
  assumes "0 < p"
  shows "(2::rat) powi (bitlen p - 1) \<le> of_int p" and "of_int p < (2::rat) powi (bitlen p)"
proof -
  have b: "2 ^ nat (bitlen p - 1) \<le> p" "p < 2 ^ nat (bitlen p)"
    using bitlen_bounds [OF assms] by simp_all
  have ge1: "1 \<le> bitlen p"
    using assms by (simp add: bitlen_alt_def)
  have "(of_int (2 ^ nat (bitlen p - 1)) :: rat) \<le> of_int p"
    using b(1) by (simp only: of_int_le_iff)
  then show "(2::rat) powi (bitlen p - 1) \<le> of_int p"
    using ge1 by (simp add: power_int_def)
  have "(of_int p :: rat) < of_int (2 ^ nat (bitlen p))"
    using b(2) by (simp only: of_int_less_iff)
  then show "of_int p < (2::rat) powi (bitlen p)"
    using ge1 by (simp add: power_int_def)
qed

lemma ilog2_bounds:
  assumes "0 < x"
  shows "2 powi (ilog2 x) \<le> x" and "x < 2 powi (ilog2 x + 1)"
proof -
  obtain p q where pq: "quotient_of x = (p, q)" by (cases "quotient_of x")
  have q: "0 < q" using pq by (rule quotient_of_denom_pos)
  have x: "x = of_int p / of_int q" using pq by (rule quotient_of_div)
  have p: "0 < p" using assms q x by (simp add: zero_less_divide_iff)
  define d where "d = bitlen p - bitlen q"
  have up: "x < 2 powi (d + 1)"
  proof -
    have "x * of_int q = of_int p" using q x by simp
    also have "\<dots> < 2 powi (bitlen p)" using powi_bitlen_bounds(2) [OF p] .
    also have "\<dots> = 2 powi (d + 1) * 2 powi (bitlen q - 1)"
      by (simp add: d_def power_int_add [symmetric])
    also have "\<dots> \<le> 2 powi (d + 1) * of_int q"
      using powi_bitlen_bounds(1) [OF q] by (simp add: mult_left_mono)
    finally show ?thesis using q by simp
  qed
  have lo: "2 powi (d - 1) \<le> x"
  proof -
    have "2 powi (d - 1) * of_int q \<le> 2 powi (d - 1) * (2::rat) powi (bitlen q)"
      using powi_bitlen_bounds(2) [OF q] by (simp add: mult_left_mono)
    also have "\<dots> = 2 powi (bitlen p - 1)"
      by (simp add: d_def power_int_add [symmetric])
    also have "\<dots> \<le> of_int p" using powi_bitlen_bounds(1) [OF p] .
    also have "\<dots> = x * of_int q" using q x by simp
    finally show ?thesis using q by simp
  qed
  have il: "ilog2 x = (if 2 powi d \<le> x then d else d - 1)"
    by (simp add: ilog2_def pq d_def)
  show "2 powi (ilog2 x) \<le> x" using lo by (simp add: il)
  show "x < 2 powi (ilog2 x + 1)" using up by (simp add: il not_le)
qed

lemma powi_mono: "a \<le> b \<Longrightarrow> (2::rat) powi a \<le> 2 powi b"
  by (rule power_int_increasing) simp_all

lemma ilog2_unique:
  assumes "0 < x" "2 powi e \<le> x" "x < 2 powi (e + 1)"
  shows "ilog2 x = e"
proof (rule ccontr)
  assume ne: "ilog2 x \<noteq> e"
  show False
  proof (cases "ilog2 x < e")
    case True
    then have "(2::rat) powi (ilog2 x + 1) \<le> 2 powi e" by (intro powi_mono) simp
    with ilog2_bounds(2) [OF assms(1)] assms(2) show False by simp
  next
    case False
    with ne have "(2::rat) powi (e + 1) \<le> 2 powi (ilog2 x)" by (intro powi_mono) simp
    with ilog2_bounds(1) [OF assms(1)] assms(3) show False by simp
  qed
qed

lemma ilog2_mono:
  assumes "0 < x" "x \<le> y"
  shows "ilog2 x \<le> ilog2 y"
proof (rule ccontr)
  assume "\<not> ilog2 x \<le> ilog2 y"
  then have "(2::rat) powi (ilog2 y + 1) \<le> 2 powi (ilog2 x)" by (intro powi_mono) simp
  moreover have "0 < y" using assms by simp
  ultimately show False
    using ilog2_bounds(1) [OF assms(1)] ilog2_bounds(2) [of y] assms(2) by simp
qed


lemma rhe_floor_le: "\<lfloor>x\<rfloor> \<le> round_half_even x"
  by (simp add: round_half_even_def Let_def)

lemma rhe_le_floor: "round_half_even x \<le> \<lfloor>x\<rfloor> + 1"
  by (simp add: round_half_even_def Let_def)

lemma rhe_of_int [simp]: "round_half_even (of_int n) = n"
  by (simp add: round_half_even_def Let_def)

lemma rhe_error: "\<bar>of_int (round_half_even x) - x\<bar> \<le> 1 / 2"
proof -
  have "of_int \<lfloor>x\<rfloor> \<le> x" "x < of_int \<lfloor>x\<rfloor> + 1" by linarith+
  then show ?thesis
    by (auto simp: round_half_even_def Let_def abs_le_iff)
qed

lemma rhe_mono:
  assumes "x \<le> y"
  shows "round_half_even x \<le> round_half_even y"
proof (cases "\<lfloor>x\<rfloor> = \<lfloor>y\<rfloor>")
  case True
  then show ?thesis using assms
    by (auto simp: round_half_even_def Let_def)
next
  case False
  then have "\<lfloor>x\<rfloor> + 1 \<le> \<lfloor>y\<rfloor>" using floor_mono [OF assms] by simp
  then show ?thesis using rhe_le_floor [of x] rhe_floor_le [of y] by linarith
qed

lemma fl_zero [simp]: "fl 0 = 0"
  by (simp add: fl_def)

lemma fl_pos_eq:
  "0 < x \<Longrightarrow> fl x = of_int (round_half_even (x / 2 powi (ilog2 x - 52))) * 2 powi (ilog2 x - 52)"
  by (simp add: fl_def Let_def)

lemma scaled_bounds:
  assumes "0 < x"
  shows "2 ^ 52 \<le> x / 2 powi (ilog2 x - 52)" and "x / 2 powi (ilog2 x - 52) < 2 ^ 53"
proof -
  have u: "(0::rat) < 2 powi (ilog2 x - 52)" by simp
  have "(2::rat) ^ 52 * 2 powi (ilog2 x - 52) = 2 powi (ilog2 x)"
    by (simp add: power_int_diff)
  then show "2 ^ 52 \<le> x / 2 powi (ilog2 x - 52)"
    using ilog2_bounds(1) [OF assms] u by (simp add: pos_le_divide_eq)
  have "(2::rat) ^ 53 * 2 powi (ilog2 x - 52) = 2 powi (ilog2 x + 1)"
    by (simp add: power_int_diff power_int_add)
  then show "x / 2 powi (ilog2 x - 52) < 2 ^ 53"
    using ilog2_bounds(2) [OF assms] u by (simp add: pos_divide_less_eq)
qed

lemma fl_pos_bounds:
  assumes "0 < x"
  shows "2 powi (ilog2 x) \<le> fl x" and "fl x \<le> 2 powi (ilog2 x + 1)"
proof -
  let ?u = "(2::rat) powi (ilog2 x - 52)"
  let ?m = "round_half_even (x / ?u)"
  have "round_half_even (of_int (2 ^ 52)) \<le> ?m"
    using scaled_bounds(1) [OF assms] by (intro rhe_mono) simp
  then have lo: "(2::rat) ^ 52 \<le> of_int ?m"
    by (simp only: rhe_of_int) (metis of_int_le_iff of_int_numeral of_int_power)
  have "?m \<le> round_half_even (of_int (2 ^ 53))"
    using scaled_bounds(2) [OF assms] by (intro rhe_mono) simp
  then have hi: "of_int ?m \<le> (2::rat) ^ 53"
    by (simp only: rhe_of_int) (metis of_int_le_iff of_int_numeral of_int_power)
  have "2 powi (ilog2 x) = (2::rat) ^ 52 * ?u" by (simp add: power_int_diff)
  also have "\<dots> \<le> of_int ?m * ?u" using lo by (intro mult_right_mono) simp_all
  finally show "2 powi (ilog2 x) \<le> fl x" using assms by (simp add: fl_pos_eq)
  have "of_int ?m * ?u \<le> (2::rat) ^ 53 * ?u" using hi by (intro mult_right_mono) simp_all
  also have "\<dots> = 2 powi (ilog2 x + 1)" by (simp add: power_int_diff power_int_add)
  finally show "fl x \<le> 2 powi (ilog2 x + 1)" using assms by (simp add: fl_pos_eq)
qed

lemma fl_pos: "0 < x \<Longrightarrow> 0 < fl x"
  using fl_pos_bounds(1) [of x] zero_less_power_int [of "2::rat" "ilog2 x"]
  by (meson less_le_trans zero_less_numeral)

lemma fl_nonneg: "0 \<le> x \<Longrightarrow> 0 \<le> fl x"
  using fl_pos [of x] by (cases "x = 0") (simp_all add: less_le)

lemma fl_mono:
  assumes "0 \<le> x" "x \<le> y"
  shows "fl x \<le> fl y"
proof (cases "x = 0")
  case True
  then show ?thesis using assms fl_nonneg [of y] by simp
next
  case False
  then have x: "0 < x" and y: "0 < y" using assms by simp_all
  show ?thesis
  proof (cases "ilog2 x = ilog2 y")
    case True
    have "x / 2 powi (ilog2 y - 52) \<le> y / 2 powi (ilog2 y - 52)"
      using assms(2) by (simp add: divide_right_mono)
    then have "round_half_even (x / 2 powi (ilog2 y - 52)) \<le> round_half_even (y / 2 powi (ilog2 y - 52))"
      by (rule rhe_mono)
    then show ?thesis using x y True
      by (simp add: fl_pos_eq mult_right_mono)
  next
    case False
    then have "ilog2 x + 1 \<le> ilog2 y" using ilog2_mono [OF x assms(2)] by simp
    then have "(2::rat) powi (ilog2 x + 1) \<le> 2 powi (ilog2 y)" by (rule powi_mono)
    then show ?thesis
      using fl_pos_bounds(2) [OF x] fl_pos_bounds(1) [OF y] by linarith
  qed
qed

lemma abs_scaled:
  fixes u :: rat
  assumes "0 < u"
  shows "\<bar>m * u - x\<bar> = \<bar>m - x / u\<bar> * u"
proof -
  have "\<bar>m - x / u\<bar> * u = \<bar>(m - x / u) * u\<bar>"
    using assms by (simp add: abs_mult)
  also have "(m - x / u) * u = m * u - x"
    using assms by (simp add: left_diff_distrib)
  finally show ?thesis by simp
qed

lemma fl_error:
  assumes "0 < x"
  shows "\<bar>fl x - x\<bar> \<le> x / 2 ^ 53"
proof -
  let ?u = "(2::rat) powi (ilog2 x - 52)"
  have u: "0 < ?u" by simp
  have "\<bar>fl x - x\<bar> = \<bar>of_int (round_half_even (x / ?u)) - x / ?u\<bar> * ?u"
    using assms by (simp add: fl_pos_eq abs_scaled [OF u])
  also have "\<dots> \<le> 1 / 2 * ?u"
    using rhe_error [of "x / ?u"] by (intro mult_right_mono) simp_all
  also have "\<dots> = 2 powi (ilog2 x) / 2 ^ 53"
    by (simp add: power_int_diff)
  also have "\<dots> \<le> x / 2 ^ 53"
    using ilog2_bounds(1) [OF assms] by (simp add: divide_right_mono)
  finally show ?thesis .
qed

lemma fl_one: "fl 1 = 1"
  by code_simp

lemma lit_nonneg: "0 \<le> lit_0_6" "0 \<le> lit_0_4"
  by (simp_all add: lit_0_6_def lit_0_4_def fl_nonneg)

lemma int_truediv_mono: "m \<le> n \<Longrightarrow> int_truediv (int m) 50 \<le> int_truediv (int n) 50"
  by (simp add: int_truediv_def fl_mono divide_right_mono)

lemma int_truediv_nonneg: "0 \<le> int_truediv (int n) 50"
  by (simp add: int_truediv_def fl_nonneg)

lemma int_truediv_ge_one:
  assumes "50 \<le> n"
  shows "1 \<le> int_truediv (int n) 50"
proof -
  have "(1::rat) \<le> of_nat n / 50" using assms by simp
  then have "fl 1 \<le> fl (of_nat n / 50)" by (intro fl_mono) simp_all
  then show ?thesis by (simp add: int_truediv_def fl_one)
qed

lemma total_of_mono:
  assumes "k1 \<le> k2" and "0 \<le> l1" and "l1 \<le> l2"
  shows "total_of k1 l1 \<le> total_of k2 l2"
proof -
  have a: "fl (of_nat k1 * lit_0_6) \<le> fl (of_nat k2 * lit_0_6)"
    using assms(1) lit_nonneg(1) by (intro fl_mono mult_right_mono) simp_all
  have b: "fl (l1 * lit_0_4) \<le> fl (l2 * lit_0_4)"
    using assms(2,3) lit_nonneg(2) by (intro fl_mono mult_right_mono) simp_all
  have a0: "0 \<le> fl (of_nat k1 * lit_0_6)"
    using lit_nonneg(1) by (intro fl_nonneg) simp
  have b0: "0 \<le> fl (l1 * lit_0_4)"
    using assms(2) lit_nonneg(2) by (intro fl_nonneg) simp
  have s: "fl (fl (of_nat k1 * lit_0_6) + fl (l1 * lit_0_4))
             \<le> fl (fl (of_nat k2 * lit_0_6) + fl (l2 * lit_0_4))"
    using a b a0 b0 by (intro fl_mono) simp_all
  have s0: "0 \<le> fl (fl (of_nat k1 * lit_0_6) + fl (l1 * lit_0_4))"
    using a0 b0 by (intro fl_nonneg) simp
  have "fl (fl (fl (of_nat k1 * lit_0_6) + fl (l1 * lit_0_4)) * 100)
          \<le> fl (fl (fl (of_nat k2 * lit_0_6) + fl (l2 * lit_0_4)) * 100)"
    using s s0 by (intro fl_mono) simp_all
  then show ?thesis by (simp add: total_of_def fmul_def fadd_def)
qed

lemma total_of_nonneg: "0 \<le> l \<Longrightarrow> 0 \<le> total_of k l"
  using lit_nonneg by (simp add: total_of_def fmul_def fadd_def fl_nonneg)

section \<open>Words and keywords of an extended text\<close>

lemma split_from_word: "cur \<noteq> [] \<Longrightarrow> 1 \<le> length (split_from cur xs)"
  by (induction xs arbitrary: cur) simp_all

lemma split_from_any_word:
  "cur \<noteq> [] \<Longrightarrow> cur' \<noteq> [] \<Longrightarrow> length (split_from cur xs) = length (split_from cur' xs)"
proof (induction xs arbitrary: cur cur')
  case Nil
  then show ?case by simp
next
  case (Cons c cs)
  show ?case
  proof (cases "isspace c")
    case True
    then show ?thesis using Cons.prems by simp
  next
    case False
    have "length (split_from (cur @ [c]) cs) = length (split_from (cur' @ [c]) cs)"
      by (rule Cons.IH) simp_all
    then show ?thesis using False by simp
  qed
qed

lemma split_from_fresh_le: "length (split_from [] xs) \<le> length (split_from cur xs)"
proof (cases xs)
  case Nil
  then show ?thesis by simp
next
  case (Cons c cs)
  show ?thesis
  proof (cases "isspace c")
    case True
    then show ?thesis using Cons by simp
  next
    case False
    have "length (split_from ([] @ [c]) cs) = length (split_from (cur @ [c]) cs)"
      by (rule split_from_any_word) simp_all
    then show ?thesis using False Cons by simp
  qed
qed

lemma split_from_append_right:
  "length (split_from cur xs) \<le> length (split_from cur (xs @ ys))"
proof (induction xs arbitrary: cur)
  case Nil
  show ?case
  proof (cases "cur = []")
    case True
    then show ?thesis by simp
  next
    case False
    then show ?thesis using split_from_word [of cur ys] by simp
  qed
next
  case (Cons c cs)
  show ?case
  proof (cases "isspace c")
    case True
    then show ?thesis using Cons.IH [of "[]"] by simp
  next
    case False
    then show ?thesis using Cons.IH [of "cur @ [c]"] by simp
  qed
qed

lemma split_from_append_left:
  "length (split_from [] xs) \<le> length (split_from cur (ps @ xs))"
proof (induction ps arbitrary: cur)
  case Nil
  then show ?case by (simp add: split_from_fresh_le)
next
  case (Cons c ps)
  show ?case
  proof (cases "isspace c")
    case True
    have "length (split_from [] xs) \<le> length (split_from [] (ps @ xs))"
      by (rule Cons.IH)
    then show ?thesis using True by simp
  next
    case False
    have "length (split_from [] xs) \<le> length (split_from (cur @ [c]) (ps @ xs))"
      by (rule Cons.IH)
    then show ?thesis using False by simp
  qed
qed

lemma word_count_sublist:
  assumes "sublist r1 r2"
  shows "word_count r1 \<le> word_count r2"
proof -
  obtain ps ss where r2: "r2 = ps @ r1 @ ss"
    using assms by (auto simp: sublist_def)
  have "length (split_from [] r1) \<le> length (split_from [] (r1 @ ss))"
    by (rule split_from_append_right)
  also have "\<dots> \<le> length (split_from [] (ps @ r1 @ ss))"
    by (rule split_from_append_left)
  finally show ?thesis by (simp add: word_count_def split_def r2)
qed

lemma length_filter_mono:
  "(\<And>x. x \<in> set xs \<Longrightarrow> P x \<Longrightarrow> Q x) \<Longrightarrow> length (filter P xs) \<le> length (filter Q xs)"
proof (induction xs)
  case Nil
  then show ?case by simp
next
  case (Cons x xs)
  have ih: "length (filter P xs) \<le> length (filter Q xs)"
    by (rule Cons.IH) (simp add: Cons.prems)
  show ?case
  proof (cases "P x")
    case True
    then have "Q x" by (simp add: Cons.prems)
    then show ?thesis using True ih by simp
  next
    case False
    then show ?thesis using ih by (cases "Q x") simp_all
  qed
qed

lemma sublist_chain: "sublist xs ys \<Longrightarrow> sublist ys zs \<Longrightarrow> sublist xs zs"
  by (rule sublist_order.order_trans)

lemma keyword_count_sublist:
  assumes "sublist r1 r2"
  shows "keyword_count r1 c \<le> keyword_count r2 c"
proof -
  have l: "sublist (lower r1) (lower r2)"
    unfolding lower_def using assms by (rule map_mono_sublist)
  have "\<And>k. sublist (lower k) (lower r1) \<Longrightarrow> sublist (lower k) (lower r2)"
    using l by (rule sublist_chain [rotated])
  then show ?thesis
    unfolding keyword_count_def by (intro length_filter_mono)
qed

lemma text_length_score_mono:
  assumes "word_count r1 \<le> word_count r2"
  shows "text_length_score r1 \<le> text_length_score r2"
proof -
  have "int_truediv (int (word_count r1)) 50 \<le> int_truediv (int (word_count r2)) 50"
    using assms by (rule int_truediv_mono)
  then show ?thesis
    unfolding text_length_score_def by (intro min.mono) simp_all
qed

lemma text_length_score_nonneg: "0 \<le> text_length_score r"
  by (simp add: text_length_score_def int_truediv_nonneg)

section \<open>Adding to a response\<close>

text \<open>
  C8. With the concept fixed, when a second response contains the first as it is (the
  text of the first, and so its words and its keywords, is preserved; whatever is added
  comes before or after it), the score of the second is at least the score of the first.
  Adding occurrences of configured keywords, in any letter case, is one way of extending.
\<close>

theorem score_monotone:
  assumes "sublist response1 response2"
  shows "\<exists>x1 x2. calculate_score (JStr response1) (JStr concept) = Inr x1
            \<and> calculate_score (JStr response2) (JStr concept) = Inr x2
            \<and> x1 \<le> x2"
proof -
  have k: "keyword_count response1 concept \<le> keyword_count response2 concept"
    using assms by (rule keyword_count_sublist)
  have w: "word_count response1 \<le> word_count response2"
    using assms by (rule word_count_sublist)
  have "total_of (keyword_count response1 concept) (text_length_score response1)
          \<le> total_of (keyword_count response2 concept) (text_length_score response2)"
    using k text_length_score_nonneg text_length_score_mono [OF w] by (rule total_of_mono)
  then have "text_score response1 concept \<le> text_score response2 concept"
    unfolding text_score_def by (intro min.mono max.mono) simp_all
  then show ?thesis by (simp add: calculate_score_text)
qed

theorem score_monotone_witness:
  "sublist ''ok'' ''ok, but BIAS matters''
   \<and> calculate_score (JStr ''ok'') (JStr ''ai_ethics'') = Inr (3602879701896397 / 4503599627370496)
   \<and> calculate_score (JStr ''ok, but BIAS matters'') (JStr ''ai_ethics'')
        = Inr (4447304632028365 / 70368744177664)
   \<and> (\<exists>x1 x2. calculate_score (JStr ''ok'') (JStr ''ai_ethics'') = Inr x1
            \<and> calculate_score (JStr ''ok, but BIAS matters'') (JStr ''ai_ethics'') = Inr x2
            \<and> x1 \<le> x2)"
proof -
  have h: "sublist ''ok'' ''ok, but BIAS matters''"
    by code_simp
  have v1: "calculate_score (JStr ''ok'') (JStr ''ai_ethics'') = Inr (3602879701896397 / 4503599627370496)"
    by code_simp
  have v2: "calculate_score (JStr ''ok, but BIAS matters'') (JStr ''ai_ethics'')
        = Inr (4447304632028365 / 70368744177664)"
    by code_simp
  show ?thesis
    using score_monotone [OF h, of "''ai_ethics''"] h v1 v2 by simp
qed

section \<open>The accuracy of one rounding\<close>

lemma fl_upper:
  assumes "0 \<le> y"
  shows "fl y \<le> y * (1 + 1 / 2 ^ 53)"
proof (cases "y = 0")
  case True
  then show ?thesis by simp
next
  case False
  then have "\<bar>fl y - y\<bar> \<le> y / 2 ^ 53" using assms by (intro fl_error) simp
  then have "fl y \<le> y + y / 2 ^ 53" by linarith
  also have "\<dots> = y * (1 + 1 / 2 ^ 53)" by (simp add: distrib_left)
  finally show ?thesis .
qed

lemma fl_lower:
  assumes "0 \<le> y"
  shows "y * (1 - 1 / 2 ^ 53) \<le> fl y"
proof (cases "y = 0")
  case True
  then show ?thesis by simp
next
  case False
  then have "\<bar>fl y - y\<bar> \<le> y / 2 ^ 53" using assms by (intro fl_error) simp
  then have "y - y / 2 ^ 53 \<le> fl y" by linarith
  moreover have "y - y / 2 ^ 53 = y * (1 - 1 / 2 ^ 53)" by (simp add: right_diff_distrib)
  ultimately show ?thesis by simp
qed

lemma lit_0_4_val: "lit_0_4 = 3602879701896397 / 9007199254740992"
  by code_simp

lemma total_of_0_1: "total_of 0 1 = 40"
  by code_simp

lemma num_upper:
  "(1 + 1 / 2 ^ 53) * (3602879701896397 / 9007199254740992) * (1 + 1 / 2 ^ 53) * (1 + 1 / 2 ^ 53) * 100
     * (1 + 1 / 2 ^ 53) - 40 \<le> (1 / 2 ^ 45 :: rat)"
  by simp

lemma num_upper0:
  "(40::rat) \<le> (1 + 1 / 2 ^ 53) * (3602879701896397 / 9007199254740992) * (1 + 1 / 2 ^ 53) * (1 + 1 / 2 ^ 53) * 100
     * (1 + 1 / 2 ^ 53)"
  by simp

lemma num_lower:
  "40 - (1 - 1 / 2 ^ 53) * (3602879701896397 / 9007199254740992) * (1 - 1 / 2 ^ 53) * (1 - 1 / 2 ^ 53) * 100
     * (1 - 1 / 2 ^ 53) \<le> (1 / 2 ^ 45 :: rat)"
  by simp

lemma num_lower0:
  "(1 - 1 / 2 ^ 53) * (3602879701896397 / 9007199254740992) * (1 - 1 / 2 ^ 53) * (1 - 1 / 2 ^ 53) * 100
     * (1 - 1 / 2 ^ 53) \<le> (40 :: rat)"
  by simp

section \<open>Concepts without keywords\<close>

lemma unknown_score_total: "unknown_score n = total_of 0 (min (int_truediv (int n) 50) 1)"
  by (simp add: unknown_score_def total_of_def)

lemma unknown_score_long:
  assumes "50 \<le> n"
  shows "unknown_score n = 40"
proof -
  have "min (int_truediv (int n) 50) 1 = 1"
    using int_truediv_ge_one [OF assms] by simp
  then show ?thesis by (simp add: unknown_score_total total_of_0_1)
qed

lemma unknown_score_short:
  assumes "n < 50"
  shows "\<bar>unknown_score n - of_nat n * 40 / 50\<bar> \<le> 1 / 2 ^ 45"
proof -
  define a :: rat where "a = 1 + 1 / 2 ^ 53"
  define b :: rat where "b = 1 - 1 / 2 ^ 53"
  define c :: rat where "c = 3602879701896397 / 9007199254740992"
  define x :: rat where "x = of_nat n / 50"
  define fx where "fx = fl x"
  define p where "p = fl (fx * c)"
  define s where "s = fl p"
  define t where "t = fl (s * 100)"
  have a0: "0 \<le> a" and b0: "0 \<le> b" and c0: "0 \<le> c"
    by (simp_all add: a_def b_def c_def)
  have x0: "0 \<le> x" and x1: "x \<le> 1"
    using assms by (simp_all add: x_def)
  have fx0: "0 \<le> fx" unfolding fx_def using x0 by (rule fl_nonneg)
  have "fx \<le> fl 1" unfolding fx_def using x0 x1 by (rule fl_mono)
  then have fx1: "fx \<le> 1" by (simp add: fl_one)
  have p0: "0 \<le> p" unfolding p_def using fx0 c0 by (intro fl_nonneg mult_nonneg_nonneg)
  have s0: "0 \<le> s" unfolding s_def using p0 by (rule fl_nonneg)
  have score: "unknown_score n = t"
    using fx1
    by (simp add: unknown_score_def fmul_def fadd_def int_truediv_def lit_0_4_val
        t_def s_def p_def fx_def x_def c_def min_absorb1)
  have u1: "fx \<le> x * a" unfolding fx_def a_def using x0 by (rule fl_upper)
  have u2: "p \<le> fx * c * a" unfolding p_def a_def using fx0 c0 by (intro fl_upper mult_nonneg_nonneg)
  have u3: "s \<le> p * a" unfolding s_def a_def using p0 by (rule fl_upper)
  have u4: "t \<le> s * 100 * a" unfolding t_def a_def using s0 by (intro fl_upper) simp
  have "p \<le> x * a * c * a"
    using u2 mult_right_mono [OF u1, of "c * a"] a0 c0 by (simp add: mult.assoc)
  then have "p * a \<le> x * a * c * a * a" using a0 by (rule mult_right_mono)
  then have "s \<le> x * a * c * a * a" using u3 by simp
  then have "s * (100 * a) \<le> x * a * c * a * a * (100 * a)"
    using a0 by (intro mult_right_mono) simp_all
  moreover have "s * 100 * a = s * (100 * a)"
    by (simp only: mult.assoc)
  moreover have "x * a * c * a * a * (100 * a) = x * (a * c * a * a * 100 * a)"
    by (simp only: mult.assoc)
  ultimately have up: "t \<le> x * (a * c * a * a * 100 * a)"
    using u4 by (simp only: order_trans)
  have l1: "x * b \<le> fx" unfolding fx_def b_def using x0 by (rule fl_lower)
  have l2: "fx * c * b \<le> p" unfolding p_def b_def using fx0 c0 by (intro fl_lower mult_nonneg_nonneg)
  have l3: "p * b \<le> s" unfolding s_def b_def using p0 by (rule fl_lower)
  have l4: "s * 100 * b \<le> t" unfolding t_def b_def using s0 by (intro fl_lower) simp
  have "x * b * c * b \<le> p"
    using l2 mult_right_mono [OF l1, of "c * b"] b0 c0 by (simp add: mult.assoc)
  then have "x * b * c * b * b \<le> p * b" using b0 by (rule mult_right_mono)
  then have "x * b * c * b * b \<le> s" using l3 by simp
  then have "x * b * c * b * b * (100 * b) \<le> s * (100 * b)"
    using b0 by (intro mult_right_mono) simp_all
  moreover have "s * 100 * b = s * (100 * b)"
    by (simp only: mult.assoc)
  moreover have "x * b * c * b * b * (100 * b) = x * (b * c * b * b * 100 * b)"
    by (simp only: mult.assoc)
  ultimately have lo: "x * (b * c * b * b * 100 * b) \<le> t"
    using l4 by (simp only: order_trans)
  have ku: "a * c * a * a * 100 * a - 40 \<le> 1 / 2 ^ 45" and ku0: "40 \<le> a * c * a * a * 100 * a"
    unfolding a_def c_def using num_upper num_upper0 by simp_all
  have kl: "40 - b * c * b * b * 100 * b \<le> 1 / 2 ^ 45" and kl0: "b * c * b * b * 100 * b \<le> 40"
    unfolding b_def c_def using num_lower num_lower0 by simp_all
  have "t - x * 40 \<le> x * (a * c * a * a * 100 * a - 40)"
    using up by (simp add: right_diff_distrib)
  also have "\<dots> \<le> 1 * (a * c * a * a * 100 * a - 40)"
    using x1 ku0 by (intro mult_right_mono) simp_all
  finally have d1: "t - x * 40 \<le> 1 / 2 ^ 45" using ku by simp
  have "x * 40 - t \<le> x * (40 - b * c * b * b * 100 * b)"
    using lo by (simp add: right_diff_distrib)
  also have "\<dots> \<le> 1 * (40 - b * c * b * b * 100 * b)"
    using x1 kl0 by (intro mult_right_mono) simp_all
  finally have d2: "x * 40 - t \<le> 1 / 2 ^ 45" using kl by simp
  have "- (t - x * 40) \<le> 1 / 2 ^ 45" using d2 by (simp only: minus_diff_eq)
  with d1 have "\<bar>t - x * 40\<bar> \<le> 1 / 2 ^ 45" by (rule abs_leI)
  moreover have "x * 40 = of_nat n * 40 / 50" by (simp add: x_def)
  ultimately show ?thesis by (simp only: score)
qed

lemma unknown_score_close:
  "\<bar>unknown_score n - min (of_nat n / 50) 1 * 40\<bar> \<le> 1 / 2 ^ 45"
proof (cases "n < 50")
  case True
  then have "min (of_nat n / 50) 1 = (of_nat n / 50 :: rat)" by simp
  then show ?thesis using unknown_score_short [OF True] by simp
next
  case False
  then have "min (of_nat n / 50) 1 = (1 :: rat)" by simp
  then show ?thesis using False by (simp add: unknown_score_long)
qed

lemma unknown_score_range: "0 \<le> unknown_score n" "unknown_score n \<le> 100"
proof -
  have l0: "0 \<le> min (int_truediv (int n) 50) 1"
    by (simp add: int_truediv_nonneg)
  show "0 \<le> unknown_score n"
    unfolding unknown_score_total using l0 by (rule total_of_nonneg)
  have "total_of 0 (min (int_truediv (int n) 50) 1) \<le> total_of 0 1"
    using l0 by (intro total_of_mono) simp_all
  then show "unknown_score n \<le> 100"
    by (simp add: unknown_score_total total_of_0_1)
qed

text \<open>
  C3, as the claim states it, fails: a response of five words for a concept that is not
  in the table scores 4.000000000000001 (the double \<open>4503599627370497 / 2 ^ 50\<close>), which
  is neither the number \<open>min (5 / 50) 1 * 40 = 4\<close> nor the double that
  \<^verbatim>\<open>min(5 / 50, 1) * 40\<close> evaluates to, which is 4 as well.
\<close>

theorem unknown_concept_score_counterexample:
  "map_of keyword_table ''quantum'' = None
   \<and> word_count ''a b c d e'' = 5
   \<and> calculate_score (JStr ''a b c d e'') (JStr ''quantum'')
        = Inr (4503599627370497 / 1125899906842624)
   \<and> calculate_score (JStr ''a b c d e'') (JStr ''quantum'')
        \<noteq> Inr (min (of_nat (word_count ''a b c d e'') / 50) 1 * 40)
   \<and> calculate_score (JStr ''a b c d e'') (JStr ''quantum'')
        \<noteq> Inr (fmul (min (int_truediv (int (word_count ''a b c d e'')) 50) 1) 40)"
proof -
  have t: "map_of keyword_table ''quantum'' = None"
    by (simp add: keyword_table_def)
  have w: "word_count ''a b c d e'' = 5"
    by code_simp
  have v: "calculate_score (JStr ''a b c d e'') (JStr ''quantum'')
        = Inr (4503599627370497 / 1125899906842624)"
    by code_simp
  have f: "fmul (min (int_truediv 5 50) 1) 40 = 4"
    by code_simp
  show ?thesis
    by (simp add: t w v f)
qed

text \<open>
  C3, amended. For every concept identifier that is not in the keyword table and every
  response text, the score function does not fail, the keyword score is 0, and the
  result is \<^verbatim>\<open>(0 * 0.6 + min(word_count / 50, 1) * 0.4) * 100\<close> as double-precision
  arithmetic evaluates it: a function of the word count alone, which differs from
  \<open>min (word_count / 50) 1 * 40\<close> by the rounding errors only, at most \<open>1 / 2 ^ 45\<close>.
\<close>

theorem unknown_concept_score:
  assumes "map_of keyword_table concept = None"
  shows "concept_keywords (JStr concept) = Inr []
     \<and> keyword_score [] (JStr response) = Inr 0
     \<and> calculate_score (JStr response) (JStr concept) = Inr (unknown_score (word_count response))
     \<and> \<bar>unknown_score (word_count response) - min (of_nat (word_count response) / 50) 1 * 40\<bar>
           \<le> 1 / 2 ^ 45"
proof -
  have k: "keyword_count response concept = 0"
    using assms by (simp add: keyword_count_def text_keywords_def)
  have "text_score response concept = unknown_score (word_count response)"
    using unknown_score_range [of "word_count response"]
    by (simp add: text_score_def k text_length_score_def unknown_score_total)
  then show ?thesis
    using assms unknown_score_close [of "word_count response"]
    by (simp add: calculate_score_text concept_keywords_def keyword_score_def)
qed

theorem unknown_concept_score_witness:
  "map_of keyword_table ''quantum'' = None
   \<and> concept_keywords (JStr ''quantum'') = Inr []
   \<and> keyword_score [] (JStr ''a b c d e'') = Inr 0
   \<and> calculate_score (JStr ''a b c d e'') (JStr ''quantum'')
        = Inr (unknown_score (word_count ''a b c d e''))
   \<and> \<bar>unknown_score (word_count ''a b c d e'') - min (of_nat (word_count ''a b c d e'') / 50) 1 * 40\<bar>
         \<le> 1 / 2 ^ 45"
proof -
  have t: "map_of keyword_table ''quantum'' = None"
    by (simp add: keyword_table_def)
  show ?thesis
    using unknown_concept_score [OF t, of "''a b c d e''"] t by simp
qed

end
